theory Spec2Isabelle
  imports Complex_Main "HOL-Library.Sublist"
begin

section \<open>The Azure Monitor metrics exporter of opencensus-python\<close>

text \<open>
  A shallow embedding of
  \<^verbatim>\<open>contrib/opencensus-ext-azure/opencensus/ext/azure/metrics_exporter/__init__.py\<close>:
  the class \<^verbatim>\<open>MetricsExporter\<close> with its constructor, \<^verbatim>\<open>export_metrics\<close>,
  \<^verbatim>\<open>metric_to_envelopes\<close>, \<^verbatim>\<open>_create_data_points\<close>, \<^verbatim>\<open>_create_properties\<close>,
  \<^verbatim>\<open>_create_envelope\<close> and \<^verbatim>\<open>shutdown\<close>.

  Exceptions are values of \<open>error\<close> on the left of a sum. Calls that leave the
  exporter (the telemetry processors, the transport, the storage, the exporter thread,
  statsbeat) are recorded in program order: a list of \<open>event\<close>s for an export,
  a list of \<open>release\<close>s for a shutdown.
\<close>

subsection \<open>Errors\<close>

datatype error = ValueError | IndexError | AttributeError

subsection \<open>The metric objects read by the converter\<close>

text \<open>
  The classes of \<^verbatim>\<open>opencensus.metrics\<close> are declared outside this file; the records
  hold the attributes the exporter reads. \<open>'v\<close> is the type of a point's number,
  \<open>'t\<close> the type of its timestamp (a \<^verbatim>\<open>datetime\<close>).
\<close>

text \<open>
  Modelled from the spec: the enumeration \<^verbatim>\<open>MetricDescriptorType\<close> is declared in
  \<^verbatim>\<open>opencensus.metrics.export.metric_descriptor\<close>. The exporter names one member,
  the cumulative distribution (the histogram shape of the spec); every other member is
  \<open>OTHER_TYPE n\<close>.
\<close>

datatype MetricDescriptorType = CUMULATIVE_DISTRIBUTION | OTHER_TYPE nat

record LabelKey =
  key :: string

text \<open>\<^verbatim>\<open>label_value.value\<close> is a string or \<^verbatim>\<open>None\<close>.\<close>

record LabelValue =
  lv_value :: "string option"

text \<open>
  Modelled from the spec: the value classes of \<^verbatim>\<open>opencensus.metrics.export.value\<close>
  are declared outside this file. \<^verbatim>\<open>point.value\<close> is a value object. A scalar value
  object holds its number in the attribute \<^verbatim>\<open>value\<close>; a distribution-shaped value
  object (the histogram shape of the spec) has no such attribute, and reading it raises
  \<^verbatim>\<open>AttributeError\<close>.
\<close>

datatype 'v ValueObject = ValueNumber 'v | ValueDistribution

definition value_attribute :: "'v ValueObject \<Rightarrow> error + 'v" where
  "value_attribute v =
     (case v of ValueNumber n \<Rightarrow> Inr n | ValueDistribution \<Rightarrow> Inl AttributeError)"

record ('v, 't) Point =
  point_value :: "'v ValueObject"
  timestamp :: 't

record ('v, 't) TimeSeries =
  label_values :: "LabelValue list"
  points :: "('v, 't) Point list"

record MetricDescriptor =
  md_name :: string
  md_type :: MetricDescriptorType
  label_keys :: "LabelKey list"

record ('v, 't) Metric =
  descriptor :: MetricDescriptor
  time_series :: "('v, 't) TimeSeries list"

subsection \<open>The protocol objects written by the converter\<close>

text \<open>
  \<^verbatim>\<open>DataPoint\<close>, \<^verbatim>\<open>MetricData\<close>, \<^verbatim>\<open>Data\<close> and \<^verbatim>\<open>Envelope\<close> of
  \<^verbatim>\<open>opencensus.ext.azure.common.protocol\<close>, with the fields the exporter sets.
  A Python dict from strings to strings is a map.
\<close>

record 'v DataPoint =
  ns :: string
  dp_name :: string
  dp_value :: 'v

record 'v MetricData =
  metrics :: "'v DataPoint list"
  properties :: "string \<rightharpoonup> string"

record 'v Data =
  baseData :: "'v MetricData"
  baseType :: string

record 'v Envelope =
  iKey :: "string option"
  tags :: "string \<rightharpoonup> string"
  time :: string
  envelope_name :: string
  data :: "'v Data"

subsection \<open>Options, storage and the exporter object\<close>

text \<open>
  The object \<^verbatim>\<open>Options(**options)\<close> with the options this file reads. Periods are
  in seconds and only passed on.
\<close>

record Options =
  instrumentation_key :: "string option"
  max_batch_size :: int
  export_interval :: real
  enable_local_storage :: bool
  storage_path :: string
  storage_max_size :: int
  storage_maintenance_period :: real
  storage_retention_period :: real
  minimum_retry_interval :: real
  enable_standard_metrics :: bool

text \<open>The arguments \<^verbatim>\<open>LocalFileStorage\<close> is constructed with.\<close>

record LocalFileStorage =
  path :: string
  max_size :: int
  maintenance_period :: real
  retention_period :: real
  source :: string

text \<open>
  The attributes of a \<^verbatim>\<open>MetricsExporter\<close>. \<open>storage\<close> and \<open>exporter_thread\<close>
  are \<^verbatim>\<open>None\<close> or an object, and an object is true in a Python condition. The
  thread object is opaque here: a handle. \<open>exp_export_interval\<close> and
  \<open>exp_max_batch_size\<close> are \<^verbatim>\<open>self.export_interval\<close> and
  \<^verbatim>\<open>self.max_batch_size\<close>, the copies the constructor takes of the options. The list
  \<^verbatim>\<open>_telemetry_processors\<close> is used only inside \<^verbatim>\<open>apply_telemetry_processors\<close>,
  which is a parameter below.
\<close>

record MetricsExporter =
  options :: Options
  is_stats :: bool
  exp_export_interval :: real
  exp_max_batch_size :: int
  storage :: "LocalFileStorage option"
  exporter_thread :: "nat option"
  consecutive_redirects :: int

subsection \<open>The calls that leave the exporter\<close>

text \<open>
  Modelled from the spec: the enumeration \<^verbatim>\<open>TransportStatusCode\<close> is declared in
  \<^verbatim>\<open>opencensus.ext.azure.common.transport\<close>. The exporter names \<^verbatim>\<open>RETRY\<close> and
  \<^verbatim>\<open>STATSBEAT_SHUTDOWN\<close> (the Retryable and SpecialShutdown outcomes of the spec);
  \<open>SUCCESS\<close> and \<open>DROP\<close> are its Success and NonRetryable outcomes. A redirect is
  followed inside the transmitter and is no result of \<^verbatim>\<open>_transmit\<close>.
\<close>

datatype TransportStatusCode = SUCCESS | RETRY | DROP | STATSBEAT_SHUTDOWN

datatype 'v event =
    Apply_telemetry_processors "'v Envelope list"
  | Transmit "'v Envelope list" TransportStatusCode
  | Storage_put "'v Envelope list" real
  | Shutdown_statsbeat_metrics
  | Transmit_from_storage

text \<open>
  The calls of \<^verbatim>\<open>shutdown\<close>: \<^verbatim>\<open>exporter_thread.close()\<close>,
  \<^verbatim>\<open>exporter_thread.cancel()\<close> and \<^verbatim>\<open>storage.close()\<close>.
\<close>

datatype release = Thread_close | Thread_cancel | Storage_close

text \<open>
  What this file calls and does not define is a parameter. The processors and the
  transport are stateful, so each gets the events that happened before its call:
  \<^item> \<open>isoformat\<close>: \<^verbatim>\<open>datetime.isoformat\<close>;
  \<^item> \<open>azure_monitor_context\<close>: the dict \<^verbatim>\<open>utils.azure_monitor_context\<close>;
  \<^item> \<open>apply_telemetry_processors\<close>: the method of \<^verbatim>\<open>ProcessorMixin\<close>, from the
    batch to the batch that is sent;
  \<^item> \<open>transmit\<close>: \<^verbatim>\<open>TransportMixin._transmit\<close>, from the batch to its status;
  \<^item> \<open>is_stats_exporter\<close>: \<^verbatim>\<open>TransportMixin._is_stats_exporter\<close>.
\<close>

record ('v, 't) env =
  isoformat :: "'t \<Rightarrow> string"
  azure_monitor_context :: "string \<rightharpoonup> string"
  apply_telemetry_processors :: "'v event list \<Rightarrow> 'v Envelope list \<Rightarrow> 'v Envelope list"
  transmit :: "'v event list \<Rightarrow> 'v Envelope list \<Rightarrow> TransportStatusCode"
  is_stats_exporter :: "MetricsExporter \<Rightarrow> bool"

subsection \<open>The constructor\<close>

text \<open>
  Modelled from the spec: \<^verbatim>\<open>utils.validate_instrumentation_key\<close> is defined in
  \<^verbatim>\<open>opencensus.ext.azure.common.utils\<close>. The spec: the key is required and is
  validated non-empty and well-formed; an invalid key is a configuration error. What
  well-formed means is the parameter \<open>well_formed\<close>.
\<close>

definition validate_instrumentation_key :: "(string \<Rightarrow> bool) \<Rightarrow> string option \<Rightarrow> error + unit" where
  "validate_instrumentation_key well_formed instrumentation_key' =
     (case instrumentation_key' of
        None \<Rightarrow> Inl ValueError
      | Some k \<Rightarrow>
          if k = [] then Inl ValueError
          else if \<not> well_formed k then Inl ValueError
          else Inr ())"

text \<open>
  \<^verbatim>\<open>__init__(self, is_stats=False, **options)\<close>, from the \<^verbatim>\<open>Options\<close> object on.
  The validator is a parameter. Registering \<^verbatim>\<open>shutdown\<close> with \<^verbatim>\<open>atexit\<close> changes
  no attribute that is read again.
\<close>

definition init :: "(string option \<Rightarrow> error + unit) \<Rightarrow> bool \<Rightarrow> Options \<Rightarrow> error + MetricsExporter" where
  "init validate is_stats' options' =
     (case validate (instrumentation_key options') of
        Inl e \<Rightarrow> Inl e
      | Inr _ \<Rightarrow>
          if max_batch_size options' \<le> 0 then Inl ValueError
          else Inr \<lparr>
            options = options',
            is_stats = is_stats',
            exp_export_interval = export_interval options',
            exp_max_batch_size = max_batch_size options',
            storage =
              (if enable_local_storage options'
               then Some \<lparr>
                 path = storage_path options',
                 max_size = storage_max_size options',
                 maintenance_period = storage_maintenance_period options',
                 retention_period = storage_retention_period options',
                 source = ''MetricsExporter'' \<rparr>
               else None),
            exporter_thread = None,
            consecutive_redirects = 0 \<rparr>)"

subsection \<open>The converter\<close>

text \<open>
  \<^verbatim>\<open>_create_data_points\<close>: one data point for each point of the series, in a loop
  that reads \<^verbatim>\<open>point.value.value\<close> of every point and raises where a value object
  has no such attribute.
\<close>

fun data_points_loop ::
  "MetricDescriptor \<Rightarrow> 'v DataPoint list \<Rightarrow> ('v, 't) Point list \<Rightarrow> error + 'v DataPoint list" where
  "data_points_loop metric_descriptor data_points [] = Inr data_points"
| "data_points_loop metric_descriptor data_points (point # rest) =
     (case value_attribute (point_value point) of
        Inl e \<Rightarrow> Inl e
      | Inr n \<Rightarrow>
          data_points_loop metric_descriptor
            (data_points @ [\<lparr> ns = md_name metric_descriptor,
                               dp_name = md_name metric_descriptor,
                               dp_value = n \<rparr>])
            rest)"

definition create_data_points :: "('v, 't) TimeSeries \<Rightarrow> MetricDescriptor \<Rightarrow> error + 'v DataPoint list" where
  "create_data_points time_series' metric_descriptor =
     data_points_loop metric_descriptor [] (points time_series')"

text \<open>
  \<^verbatim>\<open>_create_properties\<close>: the loop over \<^verbatim>\<open>range(len(label_keys))\<close>. Reading
  \<^verbatim>\<open>label_values[i]\<close> beyond the end raises \<^verbatim>\<open>IndexError\<close>; \<^verbatim>\<open>label_keys[i]\<close>
  is in range by the loop's bound.
\<close>

fun properties_loop ::
  "('v, 't) TimeSeries \<Rightarrow> MetricDescriptor \<Rightarrow> nat list \<Rightarrow> (string \<rightharpoonup> string) \<Rightarrow> error + (string \<rightharpoonup> string)" where
  "properties_loop time_series' metric_descriptor [] props = Inr props"
| "properties_loop time_series' metric_descriptor (i # is) props =
     (if i < length (label_values time_series') then
        let v = (case lv_value (label_values time_series' ! i) of
                   None \<Rightarrow> ''null''
                 | Some s \<Rightarrow> s)
        in properties_loop time_series' metric_descriptor is
             (props(key (label_keys metric_descriptor ! i) \<mapsto> v))
      else Inl IndexError)"

definition create_properties :: "('v, 't) TimeSeries \<Rightarrow> MetricDescriptor \<Rightarrow> error + (string \<rightharpoonup> string)" where
  "create_properties time_series' metric_descriptor =
     properties_loop time_series' metric_descriptor
       [0 ..< length (label_keys metric_descriptor)] Map.empty"

text \<open>\<^verbatim>\<open>_create_envelope\<close>.\<close>

definition create_envelope ::
  "('v, 't) env \<Rightarrow> MetricsExporter \<Rightarrow> 'v DataPoint \<Rightarrow> 't \<Rightarrow> (string \<rightharpoonup> string) \<Rightarrow> 'v Envelope" where
  "create_envelope env self data_point timestamp' properties' =
     \<lparr> iKey = instrumentation_key (options self),
       tags = azure_monitor_context env,
       time = isoformat env timestamp',
       envelope_name =
         (if is_stats self then ''Statsbeat''
          else ''Microsoft.ApplicationInsights.Metric''),
       data = \<lparr> baseData = \<lparr> metrics = [data_point], properties = properties' \<rparr>,
                baseType = ''MetricData'' \<rparr> \<rparr>"

text \<open>
  The loop of \<^verbatim>\<open>metric_to_envelopes\<close> over the time series. An exception of
  \<^verbatim>\<open>_create_data_points\<close> or \<^verbatim>\<open>_create_properties\<close> leaves the loop. Index
  \<^verbatim>\<open>[0]\<close> of an empty list raises \<^verbatim>\<open>IndexError\<close>, first on the data points, then
  on the points.
\<close>

fun time_series_loop ::
  "('v, 't) env \<Rightarrow> MetricsExporter \<Rightarrow> MetricDescriptor \<Rightarrow> 'v Envelope list \<Rightarrow>
   ('v, 't) TimeSeries list \<Rightarrow> error + 'v Envelope list" where
  "time_series_loop env self md envelopes [] = Inr envelopes"
| "time_series_loop env self md envelopes (time_series' # rest) =
     (case create_data_points time_series' md of
        Inl e \<Rightarrow> Inl e
      | Inr [] \<Rightarrow> Inl IndexError
      | Inr (data_point # _) \<Rightarrow>
          (case points time_series' of
             [] \<Rightarrow> Inl IndexError
           | point # _ \<Rightarrow>
               (case create_properties time_series' md of
                  Inl e \<Rightarrow> Inl e
                | Inr properties' \<Rightarrow>
                    time_series_loop env self md
                      (envelopes @ [create_envelope env self data_point (timestamp point) properties'])
                      rest)))"

definition metric_to_envelopes :: "('v, 't) env \<Rightarrow> MetricsExporter \<Rightarrow> ('v, 't) Metric \<Rightarrow> error + 'v Envelope list" where
  "metric_to_envelopes env self metric =
     (if md_type (descriptor metric) \<noteq> CUMULATIVE_DISTRIBUTION
      then time_series_loop env self (descriptor metric) [] (time_series metric)
      else Inr [])"

subsection \<open>The export cycle\<close>

text \<open>
  Modelled from the spec: \<^verbatim>\<open>common_utils.window\<close> is defined in
  \<^verbatim>\<open>opencensus.common.utils\<close>. The spec (section 4.2): an ordered sequence is sliced
  into groups of a maximum size M, in order, each of size M except possibly the last.
  The contract is given for M of at least 1; for a smaller M the model reports the
  configuration error instead of a list of batches.
\<close>

function window_from :: "nat \<Rightarrow> 'a list \<Rightarrow> 'a list list" where
  "window_from n xs =
     (if n = 0 \<or> xs = [] then [] else take n xs # window_from n (drop n xs))"
  by pat_completeness auto
termination
  by (relation "measure (\<lambda>(n, xs). length xs)") auto

definition window :: "'a list \<Rightarrow> int \<Rightarrow> error + 'a list list" where
  "window ible length' =
     (if length' \<le> 0 then Inl ValueError else Inr (window_from (nat length') ible))"

text \<open>The first loop of \<^verbatim>\<open>export_metrics\<close>: \<^verbatim>\<open>envelopes.extend(...)\<close> for each metric.\<close>

fun extend_envelopes ::
  "('v, 't) env \<Rightarrow> MetricsExporter \<Rightarrow> 'v Envelope list \<Rightarrow> ('v, 't) Metric list \<Rightarrow> error + 'v Envelope list" where
  "extend_envelopes env self envelopes [] = Inr envelopes"
| "extend_envelopes env self envelopes (metric # rest) =
     (case metric_to_envelopes env self metric of
        Inl e \<Rightarrow> Inl e
      | Inr es \<Rightarrow> extend_envelopes env self (envelopes @ es) rest)"

text \<open>
  The body of the loop over the batches, for the batch \<open>b\<close>. \<open>hist\<close> holds the
  events before the iteration. The result is the events of the iteration, with
  \<open>False\<close> when the body returns from \<^verbatim>\<open>export_metrics\<close> and \<open>True\<close> when
  the loop goes on.
\<close>

definition export_batch ::
  "('v, 't) env \<Rightarrow> MetricsExporter \<Rightarrow> 'v event list \<Rightarrow> 'v Envelope list \<Rightarrow> bool \<times> 'v event list" where
  "export_batch env self hist b =
     (let batch = apply_telemetry_processors env hist b;
          result = transmit env (hist @ [Apply_telemetry_processors b]) batch;
          evs = [Apply_telemetry_processors b, Transmit batch result]
      in if is_stats_exporter env self \<and> result = STATSBEAT_SHUTDOWN
         then (False, evs @ [Shutdown_statsbeat_metrics])
         else if storage self \<noteq> None \<and> result = RETRY
         then (True, evs @ [Storage_put batch (minimum_retry_interval (options self))])
         else (True, evs))"

text \<open>The loop: the events of all its iterations, and whether it ran to its end.\<close>

fun export_batches ::
  "('v, 't) env \<Rightarrow> MetricsExporter \<Rightarrow> 'v event list \<Rightarrow> 'v Envelope list list \<Rightarrow> bool \<times> 'v event list" where
  "export_batches env self hist [] = (True, [])"
| "export_batches env self hist (b # rest) =
     (case export_batch env self hist b of
        (False, evs) \<Rightarrow> (False, evs)
      | (True, evs) \<Rightarrow>
          (case export_batches env self (hist @ evs) rest of
             (finished, later) \<Rightarrow> (finished, evs @ later)))"

text \<open>
  \<^verbatim>\<open>export_metrics\<close>: the events of one call, or the exception it raises. The
  batches are cut with \<^verbatim>\<open>self.max_batch_size\<close>; the test for the drain of the
  storage reads \<^verbatim>\<open>self.options.max_batch_size\<close>.
\<close>

definition export_metrics ::
  "('v, 't) env \<Rightarrow> MetricsExporter \<Rightarrow> 'v event list \<Rightarrow> ('v, 't) Metric list \<Rightarrow> error + 'v event list" where
  "export_metrics env self hist metrics' =
     (case extend_envelopes env self [] metrics' of
        Inl e \<Rightarrow> Inl e
      | Inr envelopes \<Rightarrow>
          (case window envelopes (exp_max_batch_size self) of
             Inl e \<Rightarrow> Inl e
           | Inr batched_envelopes \<Rightarrow>
               (case export_batches env self hist batched_envelopes of
                  (False, evs) \<Rightarrow> Inr evs
                | (True, evs) \<Rightarrow>
                    if int (length envelopes) < max_batch_size (options self)
                    then Inr (evs @ [Transmit_from_storage])
                    else Inr evs)))"

subsection \<open>Shutdown\<close>

text \<open>
  \<^verbatim>\<open>shutdown\<close> assigns no attribute: the exporter after the call is the exporter
  before it, returned with the calls made on the thread and on the storage.
\<close>

definition shutdown :: "MetricsExporter \<Rightarrow> MetricsExporter \<times> release list" where
  "shutdown self =
     (let ev1 = (if exporter_thread self \<noteq> None
                 then (if \<not> is_stats self then [Thread_close] else [Thread_cancel])
                 else []);
          ev2 = (if storage self \<noteq> None then [Storage_close] else [])
      in (self, ev1 @ ev2))"

subsection \<open>Reading a list of events\<close>



subsection \<open>Notions of the specification\<close>

text \<open>
  A valid configuration: the validator accepts the instrumentation key and the
  maximum batch size is positive.
\<close>

definition valid_configuration :: "(string option \<Rightarrow> error + unit) \<Rightarrow> Options \<Rightarrow> bool" where
  "valid_configuration validate options' =
     (validate (instrumentation_key options') = Inr () \<and> 0 < max_batch_size options')"

text \<open>A time series cut down to its first point.\<close>

definition first_point_only :: "('v, 't) TimeSeries \<Rightarrow> ('v, 't) TimeSeries" where
  "first_point_only time_series' = time_series' \<lparr> points := take 1 (points time_series') \<rparr>"

text \<open>A point whose value object has the attribute \<^verbatim>\<open>value\<close>.\<close>

definition has_value :: "('v, 't) Point \<Rightarrow> bool" where
  "has_value p = (case point_value p of ValueNumber _ \<Rightarrow> True | ValueDistribution \<Rightarrow> False)"

text \<open>
  The envelope of a time series: built from the number and the timestamp of the first
  point of the series and the properties of its labels; no envelope when the series has
  no point, the first point has no number, or the properties raise.
\<close>

definition envelope_of_series ::
  "('v, 't) env \<Rightarrow> MetricsExporter \<Rightarrow> MetricDescriptor \<Rightarrow> ('v, 't) TimeSeries \<Rightarrow> 'v Envelope \<Rightarrow> bool" where
  "envelope_of_series env self md time_series' e =
     (case points time_series' of
        [] \<Rightarrow> False
      | p # _ \<Rightarrow>
          (case point_value p of
             ValueDistribution \<Rightarrow> False
           | ValueNumber n \<Rightarrow>
               (case create_properties time_series' md of
                  Inl _ \<Rightarrow> False
                | Inr props \<Rightarrow>
                    e = create_envelope env self
                          \<lparr> ns = md_name md, dp_name = md_name md, dp_value = n \<rparr>
                          (timestamp p) props)))"

text \<open>The text a label value is stored as.\<close>

definition label_text :: "LabelValue \<Rightarrow> string" where
  "label_text v = (case lv_value v of None \<Rightarrow> ''null'' | Some s \<Rightarrow> s)"

subsection \<open>Concrete inputs\<close>

text \<open>
  An environment whose timestamps are already ISO strings, with no processor and a
  transport that always asks for a retry; the same with a transport that always
  signals the statsbeat shutdown; and one whose key is well-formed when it has 36
  characters.
\<close>

definition retry_env :: "(int, string) env" where
  "retry_env =
     \<lparr> isoformat = (\<lambda>t. t),
       azure_monitor_context = Map.empty,
       apply_telemetry_processors = (\<lambda>hist b. b),
       transmit = (\<lambda>hist b. RETRY),
       is_stats_exporter = is_stats \<rparr>"

definition shutdown_env :: "(int, string) env" where
  "shutdown_env =
     \<lparr> isoformat = (\<lambda>t. t),
       azure_monitor_context = Map.empty,
       apply_telemetry_processors = (\<lambda>hist b. b),
       transmit = (\<lambda>hist b. STATSBEAT_SHUTDOWN),
       is_stats_exporter = is_stats \<rparr>"

definition drop_env :: "(int, string) env" where
  "drop_env =
     \<lparr> isoformat = (\<lambda>t. t),
       azure_monitor_context = Map.empty,
       apply_telemetry_processors = (\<lambda>hist b. b),
       transmit = (\<lambda>hist b. DROP),
       is_stats_exporter = is_stats \<rparr>"

definition uuid_length :: "string \<Rightarrow> bool" where
  "uuid_length k = (length k = 36)"

definition example_options :: Options where
  "example_options =
     \<lparr> instrumentation_key = Some ''12345678-1234-1234-1234-123456789abc'',
       max_batch_size = 2,
       export_interval = 15,
       enable_local_storage = True,
       storage_path = ''/tmp/opencensus'',
       storage_max_size = 52428800,
       storage_maintenance_period = 60,
       storage_retention_period = 604800,
       minimum_retry_interval = 60,
       enable_standard_metrics = True \<rparr>"

definition example_storage :: LocalFileStorage where
  "example_storage =
     \<lparr> path = ''/tmp/opencensus'',
       max_size = 52428800,
       maintenance_period = 60,
       retention_period = 604800,
       source = ''MetricsExporter'' \<rparr>"

text \<open>The exporter the constructor builds from these options, with and without a thread.\<close>

definition example_exporter :: MetricsExporter where
  "example_exporter =
     \<lparr> options = example_options,
       is_stats = False,
       exp_export_interval = 15,
       exp_max_batch_size = 2,
       storage = Some example_storage,
       exporter_thread = None,
       consecutive_redirects = 0 \<rparr>"

definition running_exporter :: MetricsExporter where
  "running_exporter = example_exporter \<lparr> exporter_thread := Some 1 \<rparr>"

definition statsbeat_exporter :: MetricsExporter where
  "statsbeat_exporter = example_exporter \<lparr> is_stats := True \<rparr>"

text \<open>A gauge with one series of two points and no labels, and its envelope.\<close>

definition example_series :: "(int, string) TimeSeries" where
  "example_series =
     \<lparr> label_values = [],
       points = [\<lparr> point_value = ValueNumber 7, timestamp = ''2020-01-01T00:00:00'' \<rparr>,
                 \<lparr> point_value = ValueNumber 9, timestamp = ''2020-01-01T00:01:00'' \<rparr>] \<rparr>"

definition example_metric :: "(int, string) Metric" where
  "example_metric =
     \<lparr> descriptor = \<lparr> md_name = ''requests'', md_type = OTHER_TYPE 1, label_keys = [] \<rparr>,
       time_series = [example_series] \<rparr>"

definition example_envelope :: "bool \<Rightarrow> int Envelope" where
  "example_envelope stats =
     \<lparr> iKey = Some ''12345678-1234-1234-1234-123456789abc'',
       tags = Map.empty,
       time = ''2020-01-01T00:00:00'',
       envelope_name = (if stats then ''Statsbeat'' else ''Microsoft.ApplicationInsights.Metric''),
       data = \<lparr> baseData = \<lparr> metrics = [\<lparr> ns = ''requests'', dp_name = ''requests'', dp_value = 7 \<rparr>],
                               properties = Map.empty \<rparr>,
                baseType = ''MetricData'' \<rparr> \<rparr>"

text \<open>The same metric as a histogram.\<close>

definition histogram_metric :: "(int, string) Metric" where
  "histogram_metric =
     \<lparr> descriptor = \<lparr> md_name = ''latency'', md_type = CUMULATIVE_DISTRIBUTION, label_keys = [] \<rparr>,
       time_series = [example_series] \<rparr>"

text \<open>
  A metric that is not a cumulative distribution and whose one point holds a
  distribution-shaped value, as the points of a gauge distribution do.
\<close>

definition distribution_metric :: "(int, string) Metric" where
  "distribution_metric =
     \<lparr> descriptor = \<lparr> md_name = ''latency'', md_type = OTHER_TYPE 3, label_keys = [] \<rparr>,
       time_series =
         [\<lparr> label_values = [],
            points = [\<lparr> point_value = ValueDistribution, timestamp = ''2020-01-01T00:00:00'' \<rparr>] \<rparr>] \<rparr>"

text \<open>A descriptor that names the label key \<open>k\<close> twice, and a series with two values.\<close>

definition twice_descriptor :: MetricDescriptor where
  "twice_descriptor =
     \<lparr> md_name = ''requests'', md_type = OTHER_TYPE 1,
       label_keys = [\<lparr> key = ''k'' \<rparr>, \<lparr> key = ''k'' \<rparr>] \<rparr>"

definition twice_series :: "(int, string) TimeSeries" where
  "twice_series =
     \<lparr> label_values = [\<lparr> lv_value = Some ''a'' \<rparr>, \<lparr> lv_value = Some ''b'' \<rparr>],
       points = [\<lparr> point_value = ValueNumber 7, timestamp = ''2020-01-01T00:00:00'' \<rparr>] \<rparr>"

text \<open>A descriptor with two different keys, and a series whose second value is missing.\<close>

definition labelled_descriptor :: MetricDescriptor where
  "labelled_descriptor =
     \<lparr> md_name = ''requests'', md_type = OTHER_TYPE 1,
       label_keys = [\<lparr> key = ''host'' \<rparr>, \<lparr> key = ''zone'' \<rparr>] \<rparr>"

definition labelled_series :: "(int, string) TimeSeries" where
  "labelled_series =
     \<lparr> label_values = [\<lparr> lv_value = Some ''web1'' \<rparr>, \<lparr> lv_value = None \<rparr>],
       points = [\<lparr> point_value = ValueNumber 7, timestamp = ''2020-01-01T00:00:00'' \<rparr>] \<rparr>"

section \<open>Batching\<close>

subsection \<open>The slices of \<open>window\<close>\<close>

declare window_from.simps [simp del]

lemma window_from_Nil: "window_from n [] = []"
  by (simp add: window_from.simps)

lemma window_from_zero: "window_from 0 xs = []"
  by (simp add: window_from.simps)

lemma window_from_step:
  "0 < n \<Longrightarrow> xs \<noteq> [] \<Longrightarrow> window_from n xs = take n xs # window_from n (drop n xs)"
  by (subst window_from.simps) simp






subsection \<open>The loop over the batches\<close>

lemma export_batch_shape:
  assumes "export_batch env self hist b = (continue, evs)"
  obtains batch result tl where
    "batch = apply_telemetry_processors env hist b"
    "result = transmit env (hist @ [Apply_telemetry_processors b]) batch"
    "evs = Apply_telemetry_processors b # Transmit batch result # tl"
    "is_stats_exporter env self \<and> result = STATSBEAT_SHUTDOWN \<Longrightarrow>
       \<not> continue \<and> tl = [Shutdown_statsbeat_metrics]"
    "\<not> (is_stats_exporter env self \<and> result = STATSBEAT_SHUTDOWN) \<Longrightarrow>
       continue \<and> tl = (if storage self \<noteq> None \<and> result = RETRY
                        then [Storage_put batch (minimum_retry_interval (options self))] else [])"
  using assms by (auto simp: export_batch_def Let_def split: if_splits)




lemma export_batches_Cons:
  assumes "export_batches env self hist (b # bs) = (finished, evs)"
  obtains (stop) "export_batch env self hist b = (False, evs)" "\<not> finished"
  | (go) ev later where "export_batch env self hist b = (True, ev)"
      "export_batches env self (hist @ ev) bs = (finished, later)" "evs = ev @ later"
  using assms by (auto split: prod.splits bool.splits)













subsection \<open>The concrete inputs, evaluated\<close>

lemma example_metric_to_envelopes:
  assumes "isoformat env = (\<lambda>t. t)" and "azure_monitor_context env = Map.empty"
    and "instrumentation_key (options self) = Some ''12345678-1234-1234-1234-123456789abc''"
  shows "metric_to_envelopes env self example_metric = Inr [example_envelope (is_stats self)]"
  using assms
  by (simp add: metric_to_envelopes_def example_metric_def example_series_def
      create_data_points_def value_attribute_def create_properties_def create_envelope_def
      example_envelope_def)

lemma retry_env_simps:
  "isoformat retry_env = (\<lambda>t. t)" "azure_monitor_context retry_env = Map.empty"
  "apply_telemetry_processors retry_env = (\<lambda>hist b. b)"
  "transmit retry_env = (\<lambda>hist b. RETRY)" "is_stats_exporter retry_env = is_stats"
  by (simp_all add: retry_env_def)

lemma example_exporter_simps:
  "options example_exporter = example_options" "is_stats example_exporter = False"
  "exp_max_batch_size example_exporter = 2" "storage example_exporter = Some example_storage"
  "exporter_thread example_exporter = None"
  by (simp_all add: example_exporter_def)

lemma example_options_simps:
  "instrumentation_key example_options = Some ''12345678-1234-1234-1234-123456789abc''"
  "max_batch_size example_options = 2" "minimum_retry_interval example_options = 60"
  "enable_local_storage example_options = True"
  by (simp_all add: example_options_def)

lemma window_from_numeral_Cons:
  "window_from (numeral k) (x # xs) =
     take (numeral k) (x # xs) # window_from (numeral k) (drop (numeral k) (x # xs))"
  by (rule window_from_step) simp_all

lemma export_metrics_cases:
  assumes "export_metrics env self hist metrics' = Inr evs"
  obtains envelopes finished loop_evs where
    "extend_envelopes env self [] metrics' = Inr envelopes"
    "0 < exp_max_batch_size self"
    "export_batches env self hist (window_from (nat (exp_max_batch_size self)) envelopes)
       = (finished, loop_evs)"
    "evs = (if finished \<and> int (length envelopes) < max_batch_size (options self)
            then loop_evs @ [Transmit_from_storage] else loop_evs)"
  using assms
  by (auto simp: export_metrics_def window_def split: sum.splits if_splits prod.splits bool.splits)

subsection \<open>Where an event stands in the events of the loop\<close>

lemma split_at_event:
  "ev @ later = pre @ e # post \<longleftrightarrow>
     (\<exists>post1. ev = pre @ e # post1 \<and> post = post1 @ later) \<or>
     (\<exists>pre2. pre = ev @ pre2 \<and> later = pre2 @ e # post)"
  by (auto simp: append_eq_append_conv2 append_eq_Cons_conv Cons_eq_append_conv)

lemma export_batch_at_transmit:
  assumes "export_batch env self hist b = (continue, ev)"
    and "ev = pre @ Transmit x r # post1"
  shows "pre = [Apply_telemetry_processors b] \<and>
         x = apply_telemetry_processors env hist b \<and>
         r = transmit env (hist @ pre) x \<and>
         post1 = (if is_stats_exporter env self \<and> r = STATSBEAT_SHUTDOWN
                  then [Shutdown_statsbeat_metrics]
                  else if storage self \<noteq> None \<and> r = RETRY
                  then [Storage_put x (minimum_retry_interval (options self))]
                  else []) \<and>
         (continue \<longleftrightarrow> \<not> (is_stats_exporter env self \<and> r = STATSBEAT_SHUTDOWN))"
  using assms
  by (auto simp: export_batch_def Let_def Cons_eq_append_conv split: if_splits)

lemma export_batch_at_put:
  assumes "export_batch env self hist b = (continue, ev)"
    and "ev = pre @ Storage_put x iv # post1"
  shows "pre = [Apply_telemetry_processors b, Transmit x RETRY] \<and> post1 = [] \<and>
         iv = minimum_retry_interval (options self) \<and> storage self \<noteq> None \<and> continue"
  using assms
  by (auto simp: export_batch_def Let_def Cons_eq_append_conv split: if_splits)

lemma export_batch_head:
  "export_batch env self hist b = (continue, ev) \<Longrightarrow> \<exists>tl. ev = Apply_telemetry_processors b # tl"
  by (auto simp: export_batch_def Let_def split: if_splits)

lemma export_batches_head:
  assumes "export_batches env self hist bs = (finished, evs)"
  shows "evs = [] \<or> (\<exists>b tl. evs = Apply_telemetry_processors b # tl)"
proof (cases bs)
  case Nil
  with assms show ?thesis by simp
next
  case (Cons b rest)
  with assms have "export_batches env self hist (b # rest) = (finished, evs)" by simp
  then show ?thesis
  proof (cases rule: export_batches_Cons)
    case stop
    from export_batch_head [OF stop(1)] show ?thesis by auto
  next
    case (go ev later)
    from export_batch_head [OF go(1)] go(3) show ?thesis by auto
  qed
qed

lemma export_batches_at_transmit:
  "export_batches env self hist bs = (finished, evs) \<Longrightarrow>
   evs = pre @ Transmit x r # post \<Longrightarrow>
     r = transmit env (hist @ pre) x \<and>
     ((\<exists>post'. post = Storage_put x (minimum_retry_interval (options self)) # post') \<longleftrightarrow>
        storage self \<noteq> None \<and> r = RETRY) \<and>
     (is_stats_exporter env self \<and> r = STATSBEAT_SHUTDOWN \<longrightarrow>
        post = [Shutdown_statsbeat_metrics] \<and> \<not> finished)"
proof (induction bs arbitrary: hist finished evs pre)
  case Nil
  then show ?case by simp
next
  case (Cons b bs)
  from Cons.prems(1) show ?case
  proof (cases rule: export_batches_Cons)
    case stop
    from export_batch_at_transmit [OF stop(1) Cons.prems(2)] stop(2) show ?thesis
      by (auto split: if_splits)
  next
    case (go ev later)
    from Cons.prems(2) go(3) have "ev @ later = pre @ Transmit x r # post" by simp
    then consider (here) post1 where "ev = pre @ Transmit x r # post1" "post = post1 @ later"
      | (there) pre2 where "pre = ev @ pre2" "later = pre2 @ Transmit x r # post"
      unfolding split_at_event by blast
    then show ?thesis
    proof cases
      case here
      note b = export_batch_at_transmit [OF go(1) here(1)]
      from export_batches_head [OF go(2)]
      have not_put: "\<not> (\<exists>post'. later = Storage_put x (minimum_retry_interval (options self)) # post')"
        by auto
      from b here(2) not_put show ?thesis
        by (auto split: if_splits)
    next
      case there
      from Cons.IH [OF go(2) there(2)] there(1) show ?thesis by simp
    qed
  qed
qed

lemma export_batches_at_put:
  "export_batches env self hist bs = (finished, evs) \<Longrightarrow>
   evs = pre @ Storage_put x iv # post \<Longrightarrow>
     (\<exists>pre'. pre = pre' @ [Transmit x RETRY]) \<and>
     iv = minimum_retry_interval (options self) \<and> storage self \<noteq> None"
proof (induction bs arbitrary: hist finished evs pre)
  case Nil
  then show ?case by simp
next
  case (Cons b bs)
  from Cons.prems(1) show ?case
  proof (cases rule: export_batches_Cons)
    case stop
    from export_batch_at_put [OF stop(1) Cons.prems(2)] show ?thesis
      by blast
  next
    case (go ev later)
    from Cons.prems(2) go(3) have "ev @ later = pre @ Storage_put x iv # post" by simp
    then consider (here) post1 where "ev = pre @ Storage_put x iv # post1" "post = post1 @ later"
      | (there) pre2 where "pre = ev @ pre2" "later = pre2 @ Storage_put x iv # post"
      unfolding split_at_event by blast
    then show ?thesis
    proof cases
      case here
      from export_batch_at_put [OF go(1) here(1)] show ?thesis by simp
    next
      case there
      from Cons.IH [OF go(2) there(2)] there(1) show ?thesis by auto
    qed
  qed
qed

lemma export_metrics_at_transmit:
  assumes "export_metrics env self hist metrics' = Inr evs"
    and "evs = pre @ Transmit x r # post"
  shows "r = transmit env (hist @ pre) x \<and>
     ((\<exists>post'. post = Storage_put x (minimum_retry_interval (options self)) # post') \<longleftrightarrow>
        storage self \<noteq> None \<and> r = RETRY) \<and>
     (is_stats_exporter env self \<and> r = STATSBEAT_SHUTDOWN \<longrightarrow>
        post = [Shutdown_statsbeat_metrics])"
  using assms(1)
proof (cases rule: export_metrics_cases)
  case (1 envelopes finished loop_evs)
  show ?thesis
  proof (cases "finished \<and> int (length envelopes) < max_batch_size (options self)")
    case False
    with 1(4) assms(2) have "loop_evs = pre @ Transmit x r # post" by simp
    from export_batches_at_transmit [OF 1(3) this] show ?thesis by simp
  next
    case True
    with 1(4) assms(2) have "loop_evs @ [Transmit_from_storage] = pre @ Transmit x r # post"
      by simp
    then obtain post1 where p: "loop_evs = pre @ Transmit x r # post1"
        "post = post1 @ [Transmit_from_storage]"
      unfolding split_at_event by (auto simp: Cons_eq_append_conv)
    from export_batches_at_transmit [OF 1(3) p(1)] True p(2) show ?thesis
      by (cases post1) auto
  qed
qed

lemma export_metrics_at_put:
  assumes "export_metrics env self hist metrics' = Inr evs"
    and "evs = pre @ Storage_put x iv # post"
  shows "(\<exists>pre'. pre = pre' @ [Transmit x RETRY]) \<and>
     iv = minimum_retry_interval (options self) \<and> storage self \<noteq> None"
  using assms(1)
proof (cases rule: export_metrics_cases)
  case (1 envelopes finished loop_evs)
  show ?thesis
  proof (cases "finished \<and> int (length envelopes) < max_batch_size (options self)")
    case False
    with 1(4) assms(2) have "loop_evs = pre @ Storage_put x iv # post" by simp
    from export_batches_at_put [OF 1(3) this] show ?thesis by simp
  next
    case True
    with 1(4) assms(2) have "loop_evs @ [Transmit_from_storage] = pre @ Storage_put x iv # post"
      by simp
    then obtain post1 where p: "loop_evs = pre @ Storage_put x iv # post1"
      unfolding split_at_event by (auto simp: Cons_eq_append_conv)
    from export_batches_at_put [OF 1(3) p] show ?thesis by simp
  qed
qed

lemma init_storage:
  "init validate stats opts = Inr self \<Longrightarrow> (storage self \<noteq> None \<longleftrightarrow> enable_local_storage opts)"
  by (auto simp: init_def split: sum.splits if_splits)

subsection \<open>Exports of the concrete inputs\<close>

lemma shutdown_env_simps:
  "isoformat shutdown_env = (\<lambda>t. t)" "azure_monitor_context shutdown_env = Map.empty"
  "apply_telemetry_processors shutdown_env = (\<lambda>hist b. b)"
  "transmit shutdown_env = (\<lambda>hist b. STATSBEAT_SHUTDOWN)" "is_stats_exporter shutdown_env = is_stats"
  by (simp_all add: shutdown_env_def)

lemma drop_env_simps:
  "isoformat drop_env = (\<lambda>t. t)" "azure_monitor_context drop_env = Map.empty"
  "apply_telemetry_processors drop_env = (\<lambda>hist b. b)"
  "transmit drop_env = (\<lambda>hist b. DROP)" "is_stats_exporter drop_env = is_stats"
  by (simp_all add: drop_env_def)

lemma statsbeat_exporter_simps:
  "options statsbeat_exporter = example_options" "is_stats statsbeat_exporter = True"
  "exp_max_batch_size statsbeat_exporter = 2" "storage statsbeat_exporter = Some example_storage"
  "exporter_thread statsbeat_exporter = None"
  by (simp_all add: statsbeat_exporter_def example_exporter_def)

lemma retry_export:
  "export_metrics retry_env example_exporter [] [example_metric] =
     Inr [Apply_telemetry_processors [example_envelope False],
          Transmit [example_envelope False] RETRY,
          Storage_put [example_envelope False] 60,
          Transmit_from_storage]"
proof -
  have m: "metric_to_envelopes retry_env example_exporter example_metric = Inr [example_envelope False]"
    using example_metric_to_envelopes [of retry_env example_exporter]
    by (simp add: retry_env_simps example_exporter_simps example_options_simps)
  show ?thesis
    by (simp add: export_metrics_def m window_def window_from_numeral_Cons window_from_Nil Let_def
        export_batch_def retry_env_simps example_exporter_simps example_options_simps)
qed

lemma drop_export:
  "export_metrics drop_env example_exporter [] [example_metric] =
     Inr [Apply_telemetry_processors [example_envelope False],
          Transmit [example_envelope False] DROP,
          Transmit_from_storage]"
proof -
  have m: "metric_to_envelopes drop_env example_exporter example_metric = Inr [example_envelope False]"
    using example_metric_to_envelopes [of drop_env example_exporter]
    by (simp add: drop_env_simps example_exporter_simps example_options_simps)
  show ?thesis
    by (simp add: export_metrics_def m window_def window_from_numeral_Cons window_from_Nil Let_def
        export_batch_def drop_env_simps example_exporter_simps example_options_simps)
qed


lemma shutdown_export_three:
  "export_metrics shutdown_env statsbeat_exporter [] [example_metric, example_metric, example_metric] =
     Inr [Apply_telemetry_processors [example_envelope True, example_envelope True],
          Transmit [example_envelope True, example_envelope True] STATSBEAT_SHUTDOWN,
          Shutdown_statsbeat_metrics]"
proof -
  have m: "metric_to_envelopes shutdown_env statsbeat_exporter example_metric = Inr [example_envelope True]"
    using example_metric_to_envelopes [of shutdown_env statsbeat_exporter]
    by (simp add: shutdown_env_simps statsbeat_exporter_simps example_options_simps)
  show ?thesis
    by (simp add: export_metrics_def m window_def window_from_numeral_Cons window_from_Nil Let_def
        export_batch_def shutdown_env_simps statsbeat_exporter_simps example_options_simps)
qed


lemma example_window_three:
  "window [e, e, e] 2 = Inr [[e, e], [e]]"
  by (simp add: window_def window_from_numeral_Cons window_from_Nil)

text \<open>The scenario of the specification: 250 envelopes in batches of 100.\<close>

lemma window_scenario:
  "window (replicate 250 e) 100 = Inr [replicate 100 e, replicate 100 e, replicate 50 e]"
proof -
  have s: "window_from 100 (replicate n e) =
      take 100 (replicate n e) # window_from 100 (drop 100 (replicate n e))" if "0 < n" for n
    using that by (intro window_from_step) simp_all
  show ?thesis
    by (simp add: window_def s window_from_Nil)
qed

section \<open>The export cycle\<close>

subsection \<open>The batches of an export\<close>





subsection \<open>Storing a batch for a retry\<close>

text \<open>
  Claim C3. In the events of an export, the transmission of a batch is followed at
  once by \<^verbatim>\<open>storage.put\<close> of that batch with the minimum retry interval of the
  options if and only if the exporter has a storage and the transmission returned
  \<^verbatim>\<open>RETRY\<close>; the result recorded is the one the transport gave for the batch. No
  other \<^verbatim>\<open>storage.put\<close> happens: each one stands right after the transmission of
  its batch with result \<^verbatim>\<open>RETRY\<close>. So a batch with any other result, the
  non-retryable \<open>DROP\<close> among them, is never stored. An exporter built by the
  constructor has a storage exactly when local storage is enabled.
\<close>

theorem export_metrics_stores_retries:
  assumes "export_metrics env self hist metrics' = Inr evs"
  shows "(\<forall>pre batch result post. evs = pre @ Transmit batch result # post \<longrightarrow>
            result = transmit env (hist @ pre) batch \<and>
            ((\<exists>post'. post = Storage_put batch (minimum_retry_interval (options self)) # post') \<longleftrightarrow>
               storage self \<noteq> None \<and> result = RETRY)) \<and>
         (\<forall>pre batch iv post. evs = pre @ Storage_put batch iv # post \<longrightarrow>
            (\<exists>pre'. pre = pre' @ [Transmit batch RETRY]) \<and>
            iv = minimum_retry_interval (options self) \<and> storage self \<noteq> None) \<and>
         (\<forall>validate stats opts. init validate stats opts = Inr self \<longrightarrow>
            (storage self \<noteq> None \<longleftrightarrow> enable_local_storage opts))"
proof (intro conjI allI impI)
  fix pre batch result post
  assume e: "evs = pre @ Transmit batch result # post"
  from export_metrics_at_transmit [OF assms e]
  show "result = transmit env (hist @ pre) batch"
    and "(\<exists>post'. post = Storage_put batch (minimum_retry_interval (options self)) # post') \<longleftrightarrow>
           storage self \<noteq> None \<and> result = RETRY"
    by blast+
next
  fix pre batch iv post
  assume e: "evs = pre @ Storage_put batch iv # post"
  from export_metrics_at_put [OF assms e]
  show "\<exists>pre'. pre = pre' @ [Transmit batch RETRY]"
    and "iv = minimum_retry_interval (options self)" and "storage self \<noteq> None"
    by blast+
next
  fix validate stats opts
  assume "init validate stats opts = Inr self"
  then show "storage self \<noteq> None \<longleftrightarrow> enable_local_storage opts"
    by (rule init_storage)
qed

theorem export_metrics_stores_retries_witness:
  "export_metrics retry_env example_exporter [] [example_metric] =
     Inr ([Apply_telemetry_processors [example_envelope False]] @
          Transmit [example_envelope False] RETRY #
          [Storage_put [example_envelope False] 60, Transmit_from_storage]) \<and>
   RETRY = transmit retry_env ([] @ [Apply_telemetry_processors [example_envelope False]])
             [example_envelope False] \<and>
   storage example_exporter \<noteq> None \<and>
   export_metrics drop_env example_exporter [] [example_metric] =
     Inr ([Apply_telemetry_processors [example_envelope False]] @
          Transmit [example_envelope False] DROP # [Transmit_from_storage]) \<and>
   (\<nexists>post'. [Transmit_from_storage] =
       Storage_put [example_envelope False] (minimum_retry_interval (options example_exporter)) # post')"
proof -
  have r: "export_metrics retry_env example_exporter [] [example_metric] =
     Inr ([Apply_telemetry_processors [example_envelope False]] @
          Transmit [example_envelope False] RETRY #
          [Storage_put [example_envelope False] 60, Transmit_from_storage])"
    by (simp add: retry_export)
  have d: "export_metrics drop_env example_exporter [] [example_metric] =
     Inr ([Apply_telemetry_processors [example_envelope False]] @
          Transmit [example_envelope False] DROP # [Transmit_from_storage])"
    by (simp add: drop_export)
  note tr = export_metrics_stores_retries [OF r, THEN conjunct1, rule_format, OF refl]
  note td = export_metrics_stores_retries [OF d, THEN conjunct1, rule_format, OF refl]
  from tr have "RETRY = transmit retry_env ([] @ [Apply_telemetry_processors [example_envelope False]])
             [example_envelope False]"
    and "storage example_exporter \<noteq> None"
    by (simp_all add: example_exporter_simps example_options_simps)
  moreover from td have "\<nexists>post'. [Transmit_from_storage] =
       Storage_put [example_envelope False] (minimum_retry_interval (options example_exporter)) # post'"
    by simp
  ultimately show ?thesis using r d by simp
qed

subsection \<open>The statsbeat shutdown\<close>

text \<open>
  Claim C8. When \<^verbatim>\<open>_is_stats_exporter()\<close> holds and a transmission of the export
  is recorded with the result \<^verbatim>\<open>STATSBEAT_SHUTDOWN\<close>, which is then what the
  transport returned for that batch, the only event after that transmission is the
  call of \<^verbatim>\<open>shutdown_statsbeat_metrics\<close>: no later batch is handed to the
  processors, transmitted or stored, and the storage is not drained.
\<close>

theorem export_metrics_statsbeat_shutdown:
  assumes "export_metrics env self hist metrics' = Inr evs"
    and "is_stats_exporter env self"
    and "evs = pre @ Transmit batch STATSBEAT_SHUTDOWN # post"
  shows "transmit env (hist @ pre) batch = STATSBEAT_SHUTDOWN \<and>
         post = [Shutdown_statsbeat_metrics]"
proof -
  note t = export_metrics_at_transmit [OF assms(1) assms(3)]
  from t have "transmit env (hist @ pre) batch = STATSBEAT_SHUTDOWN" by simp
  moreover from t assms(2) have "post = [Shutdown_statsbeat_metrics]" by simp
  ultimately show ?thesis by simp
qed

theorem export_metrics_statsbeat_shutdown_witness:
  "is_stats_exporter shutdown_env statsbeat_exporter \<and>
   extend_envelopes shutdown_env statsbeat_exporter [] [example_metric, example_metric, example_metric] =
     Inr [example_envelope True, example_envelope True, example_envelope True] \<and>
   window [example_envelope True, example_envelope True, example_envelope True]
       (exp_max_batch_size statsbeat_exporter) =
     Inr [[example_envelope True, example_envelope True], [example_envelope True]] \<and>
   export_metrics shutdown_env statsbeat_exporter [] [example_metric, example_metric, example_metric] =
     Inr ([Apply_telemetry_processors [example_envelope True, example_envelope True]] @
          Transmit [example_envelope True, example_envelope True] STATSBEAT_SHUTDOWN #
          [Shutdown_statsbeat_metrics])"
proof -
  have h2: "is_stats_exporter shutdown_env statsbeat_exporter"
    by (simp add: shutdown_env_simps statsbeat_exporter_simps)
  have m: "metric_to_envelopes shutdown_env statsbeat_exporter example_metric = Inr [example_envelope True]"
    using example_metric_to_envelopes [of shutdown_env statsbeat_exporter]
    by (simp add: shutdown_env_simps statsbeat_exporter_simps example_options_simps)
  have g: "extend_envelopes shutdown_env statsbeat_exporter [] [example_metric, example_metric, example_metric] =
     Inr [example_envelope True, example_envelope True, example_envelope True]"
    by (simp add: m)
  have w: "window [example_envelope True, example_envelope True, example_envelope True]
       (exp_max_batch_size statsbeat_exporter) =
     Inr [[example_envelope True, example_envelope True], [example_envelope True]]"
    by (simp add: statsbeat_exporter_simps example_window_three)
  obtain evs where h1: "export_metrics shutdown_env statsbeat_exporter []
      [example_metric, example_metric, example_metric] = Inr evs"
    and h3: "evs = [Apply_telemetry_processors [example_envelope True, example_envelope True]] @
          Transmit [example_envelope True, example_envelope True] STATSBEAT_SHUTDOWN #
          drop 2 evs"
    by (simp add: shutdown_export_three)
  from export_metrics_statsbeat_shutdown [OF h1 h2 h3] h3
  have "evs = [Apply_telemetry_processors [example_envelope True, example_envelope True]] @
          Transmit [example_envelope True, example_envelope True] STATSBEAT_SHUTDOWN #
          [Shutdown_statsbeat_metrics]"
    by simp
  with h1 h2 g w show ?thesis by simp
qed

subsection \<open>Draining the storage\<close>




section \<open>The converter\<close>

subsection \<open>Histograms\<close>

text \<open>
  Claim C5. For every metric whose descriptor type is the cumulative distribution,
  \<^verbatim>\<open>metric_to_envelopes\<close> returns the empty list of envelopes and raises nothing,
  whatever its time series hold.
\<close>

theorem metric_to_envelopes_histogram:
  assumes "md_type (descriptor metric) = CUMULATIVE_DISTRIBUTION"
  shows "metric_to_envelopes env self metric = Inr []"
  using assms by (simp add: metric_to_envelopes_def)

theorem metric_to_envelopes_histogram_witness:
  "md_type (descriptor histogram_metric) = CUMULATIVE_DISTRIBUTION \<and>
   time_series histogram_metric \<noteq> [] \<and>
   metric_to_envelopes retry_env example_exporter histogram_metric = Inr []"
proof -
  have h: "md_type (descriptor histogram_metric) = CUMULATIVE_DISTRIBUTION"
    by (simp add: histogram_metric_def)
  moreover have "time_series histogram_metric \<noteq> []"
    by (simp add: histogram_metric_def)
  ultimately show ?thesis
    using metric_to_envelopes_histogram [OF h, of retry_env example_exporter] by simp
qed

subsection \<open>The properties of a time series\<close>

lemma properties_loop_Inr:
  "\<forall>i \<in> set is. i < length (label_values ts) \<Longrightarrow>
     properties_loop ts md is props =
       Inr (fold (\<lambda>i p. p(key (label_keys md ! i) \<mapsto> label_text (label_values ts ! i))) is props)"
  by (induction "is" arbitrary: props) (simp_all add: label_text_def)

lemma properties_loop_Inl:
  "\<exists>i \<in> set is. \<not> i < length (label_values ts) \<Longrightarrow>
     properties_loop ts md is props = Inl IndexError"
  by (induction "is" arbitrary: props) auto

lemma properties_loop_error:
  "properties_loop ts md is props = Inl e \<Longrightarrow> e = IndexError"
  by (induction "is" arbitrary: props) (auto split: if_splits)

lemma properties_loop_points:
  "properties_loop (ts \<lparr> points := ps \<rparr>) md is props = properties_loop ts md is props"
  by (induction "is" arbitrary: props) simp_all

lemma fold_update_other:
  "\<forall>j \<in> set is. f j \<noteq> k \<Longrightarrow> fold (\<lambda>i p. p(f i \<mapsto> g i)) is props k = props k"
  by (induction "is" arbitrary: props) auto

lemma fold_update_last:
  "\<forall>j \<in> set post. f j \<noteq> f i \<Longrightarrow>
     fold (\<lambda>i p. p(f i \<mapsto> g i)) (pre @ i # post) props (f i) = Some (g i)"
  by (simp add: fold_update_other)

lemma fold_update_dom:
  "dom (fold (\<lambda>i p. p(f i \<mapsto> g i)) is props) = dom props \<union> f ` set is"
  by (induction "is" arbitrary: props) auto

lemma create_properties_Inr:
  assumes "length (label_keys md) \<le> length (label_values ts)"
  shows "create_properties ts md =
     Inr (fold (\<lambda>i p. p(key (label_keys md ! i) \<mapsto> label_text (label_values ts ! i)))
            [0 ..< length (label_keys md)] Map.empty)"
  unfolding create_properties_def using assms by (intro properties_loop_Inr) auto

lemma create_properties_Inl:
  assumes "length (label_values ts) < length (label_keys md)"
  shows "create_properties ts md = Inl IndexError"
  unfolding create_properties_def
proof (rule properties_loop_Inl)
  from assms have "length (label_values ts) \<in> set [0 ..< length (label_keys md)]" by simp
  then show "\<exists>i \<in> set [0 ..< length (label_keys md)]. \<not> i < length (label_values ts)"
    by blast
qed

lemma create_properties_error: "create_properties ts md = Inl e \<Longrightarrow> e = IndexError"
  unfolding create_properties_def by (rule properties_loop_error)

lemma create_properties_points:
  "create_properties (ts \<lparr> points := ps \<rparr>) md = create_properties ts md"
  by (simp add: create_properties_def properties_loop_points)

text \<open>
  Claim C7, as stated, fails when a label key occurs twice: with the keys \<open>k, k\<close> and
  the values \<open>a, b\<close> the precondition holds and the mapping pairs \<open>k\<close>, the key at
  index 0, with \<open>b\<close>, not with the value \<open>a\<close> at index 0.
\<close>

theorem create_properties_counterexample:
  "length (label_keys twice_descriptor) \<le> length (label_values twice_series) \<and>
   create_properties twice_series twice_descriptor = Inr [''k'' \<mapsto> ''b''] \<and>
   key (label_keys twice_descriptor ! 0) = ''k'' \<and>
   lv_value (label_values twice_series ! 0) = Some ''a'' \<and>
   [''k'' \<mapsto> ''b''] (key (label_keys twice_descriptor ! 0)) \<noteq> Some ''a''"
  by (simp add: twice_descriptor_def twice_series_def create_properties_def)

text \<open>
  Claim C7, amended. When the time series has at least as many label values as the
  descriptor has label keys, \<^verbatim>\<open>_create_properties\<close> returns a mapping whose keys
  are exactly the label keys, and which maps the key at index \<open>i\<close> to the label value
  at index \<open>i\<close>, with \<^verbatim>\<open>None\<close> stored as the string \<open>null\<close>, whenever that key does
  not occur again at a later index; so for every index when the keys are distinct, and
  a key that occurs more than once keeps the value of its last occurrence. The lengths
  are not compared: further label values are ignored, and with fewer label values than
  keys the function raises \<^verbatim>\<open>IndexError\<close>.
\<close>

theorem create_properties_pairs:
  "(length (label_keys md) \<le> length (label_values ts) \<longrightarrow>
      (\<exists>props. create_properties ts md = Inr props \<and>
         dom props = key ` set (label_keys md) \<and>
         (\<forall>i < length (label_keys md).
            (\<forall>j. i < j \<and> j < length (label_keys md) \<longrightarrow>
                 key (label_keys md ! j) \<noteq> key (label_keys md ! i)) \<longrightarrow>
            props (key (label_keys md ! i)) = Some (label_text (label_values ts ! i))))) \<and>
   (length (label_values ts) < length (label_keys md) \<longrightarrow>
      create_properties ts md = Inl IndexError) \<and>
   label_text \<lparr> lv_value = None \<rparr> = ''null'' \<and>
   (\<forall>s. label_text \<lparr> lv_value = Some s \<rparr> = s)"
proof (intro conjI impI allI)
  assume le: "length (label_keys md) \<le> length (label_values ts)"
  define n where "n = length (label_keys md)"
  define f where "f = (\<lambda>i. key (label_keys md ! i))"
  define g where "g = (\<lambda>i. label_text (label_values ts ! i))"
  define props where "props = fold (\<lambda>i p. p(f i \<mapsto> g i)) [0 ..< n] Map.empty"
  have r: "create_properties ts md = Inr props"
    unfolding props_def f_def g_def n_def using le by (rule create_properties_Inr)
  have "dom props = f ` set [0 ..< n]"
    unfolding props_def by (simp add: fold_update_dom)
  also have "\<dots> = key ` (nth (label_keys md) ` {0 ..< n})"
    unfolding f_def by (simp add: image_image)
  also have "nth (label_keys md) ` {0 ..< n} = set (label_keys md)"
    unfolding n_def by (simp add: nth_image)
  finally have d: "dom props = key ` set (label_keys md)" .
  have v: "props (f i) = Some (g i)" if "i < n" and "\<forall>j. i < j \<and> j < n \<longrightarrow> f j \<noteq> f i" for i
  proof -
    from that(1) have "[0 ..< n] = [0 ..< i] @ i # [Suc i ..< n]"
      by (metis le_add2 le_add_same_cancel2 less_imp_add_positive upt_add_eq_append upt_conv_Cons)
    moreover from that(2) have "\<forall>j \<in> set [Suc i ..< n]. f j \<noteq> f i" by simp
    ultimately show ?thesis unfolding props_def by (simp only: fold_update_last)
  qed
  from r d v show "\<exists>props. create_properties ts md = Inr props \<and>
         dom props = key ` set (label_keys md) \<and>
         (\<forall>i < length (label_keys md).
            (\<forall>j. i < j \<and> j < length (label_keys md) \<longrightarrow>
                 key (label_keys md ! j) \<noteq> key (label_keys md ! i)) \<longrightarrow>
            props (key (label_keys md ! i)) = Some (label_text (label_values ts ! i)))"
    unfolding f_def g_def n_def by blast
next
  assume "length (label_values ts) < length (label_keys md)"
  then show "create_properties ts md = Inl IndexError" by (rule create_properties_Inl)
next
  show "label_text \<lparr> lv_value = None \<rparr> = ''null''" by (simp add: label_text_def)
next
  fix s show "label_text \<lparr> lv_value = Some s \<rparr> = s" by (simp add: label_text_def)
qed

theorem create_properties_pairs_witness:
  "length (label_keys labelled_descriptor) \<le> length (label_values labelled_series) \<and>
   (\<exists>props. create_properties labelled_series labelled_descriptor = Inr props \<and>
      dom props = {''host'', ''zone''} \<and>
      props ''host'' = Some ''web1'' \<and> props ''zone'' = Some ''null'')"
proof -
  have h: "length (label_keys labelled_descriptor) \<le> length (label_values labelled_series)"
    by (simp add: labelled_descriptor_def labelled_series_def)
  from create_properties_pairs [of labelled_descriptor labelled_series, THEN conjunct1, rule_format, OF h]
  obtain props where p: "create_properties labelled_series labelled_descriptor = Inr props"
    "dom props = key ` set (label_keys labelled_descriptor)"
    "\<And>i. i < length (label_keys labelled_descriptor) \<Longrightarrow>
       (\<forall>j. i < j \<and> j < length (label_keys labelled_descriptor) \<longrightarrow>
          key (label_keys labelled_descriptor ! j) \<noteq> key (label_keys labelled_descriptor ! i)) \<Longrightarrow>
       props (key (label_keys labelled_descriptor ! i)) = Some (label_text (label_values labelled_series ! i))"
    by blast
  have two: "j < 2 \<longleftrightarrow> j = 0 \<or> j = 1" for j :: nat by auto
  from p(3) [of 0] have "props ''host'' = Some ''web1''"
    by (simp add: labelled_descriptor_def labelled_series_def label_text_def two)
  moreover from p(3) [of 1] have "props ''zone'' = Some ''null''"
    by (simp add: labelled_descriptor_def labelled_series_def label_text_def)
  moreover from p(2) have "dom props = {''host'', ''zone''}"
    by (simp add: labelled_descriptor_def)
  ultimately show ?thesis using h p(1) by blast
qed

subsection \<open>The data points of a time series\<close>

lemma data_points_loop_Inr:
  "data_points_loop md acc ps = Inr out \<Longrightarrow>
     \<exists>dps. out = acc @ dps \<and>
       list_all2 (\<lambda>p d. point_value p = ValueNumber (dp_value d) \<and>
                          d = \<lparr> ns = md_name md, dp_name = md_name md, dp_value = dp_value d \<rparr>) ps dps"
proof (induction ps arbitrary: acc)
  case Nil
  then show ?case by simp
next
  case (Cons p ps)
  from Cons.prems obtain n where v: "point_value p = ValueNumber n"
    and r: "data_points_loop md (acc @ [\<lparr> ns = md_name md, dp_name = md_name md, dp_value = n \<rparr>]) ps = Inr out"
    by (auto simp: value_attribute_def split: ValueObject.splits)
  from Cons.IH [OF r] obtain dps where
    "out = (acc @ [\<lparr> ns = md_name md, dp_name = md_name md, dp_value = n \<rparr>]) @ dps"
    "list_all2 (\<lambda>p d. point_value p = ValueNumber (dp_value d) \<and>
                          d = \<lparr> ns = md_name md, dp_name = md_name md, dp_value = dp_value d \<rparr>) ps dps"
    by blast
  with v show ?case by simp
qed

lemma data_points_loop_error: "data_points_loop md acc ps = Inl e \<Longrightarrow> e = AttributeError"
  by (induction ps arbitrary: acc)
    (auto simp: value_attribute_def split: ValueObject.splits)

lemma data_points_loop_total:
  "\<forall>p \<in> set ps. has_value p \<Longrightarrow> \<exists>out. data_points_loop md acc ps = Inr out"
  by (induction ps arbitrary: acc)
    (auto simp: value_attribute_def has_value_def split: ValueObject.splits)

lemma data_points_loop_no_value:
  "\<exists>p \<in> set ps. \<not> has_value p \<Longrightarrow> data_points_loop md acc ps = Inl AttributeError"
  by (induction ps arbitrary: acc)
    (auto simp: value_attribute_def has_value_def split: ValueObject.splits)

lemma create_data_points_Inr:
  assumes "create_data_points ts md = Inr dps"
  shows "list_all2 (\<lambda>p d. point_value p = ValueNumber (dp_value d) \<and>
                           d = \<lparr> ns = md_name md, dp_name = md_name md, dp_value = dp_value d \<rparr>)
           (points ts) dps"
  using data_points_loop_Inr [of md "[]" "points ts" dps] assms
  by (simp add: create_data_points_def)

lemma create_data_points_error: "create_data_points ts md = Inl e \<Longrightarrow> e = AttributeError"
  unfolding create_data_points_def by (rule data_points_loop_error)

lemma create_data_points_total:
  "\<forall>p \<in> set (points ts). has_value p \<Longrightarrow> \<exists>dps. create_data_points ts md = Inr dps"
  unfolding create_data_points_def by (rule data_points_loop_total)

lemma create_data_points_first:
  assumes "create_data_points ts md = Inr (d # dps)"
  shows "\<exists>p ps n. points ts = p # ps \<and> point_value p = ValueNumber n \<and>
           d = \<lparr> ns = md_name md, dp_name = md_name md, dp_value = n \<rparr>"
  using create_data_points_Inr [OF assms] by (auto simp: list_all2_Cons2)

lemma create_data_points_Nil:
  "create_data_points ts md = Inr [] \<longleftrightarrow> points ts = []"
proof
  assume "create_data_points ts md = Inr []"
  from create_data_points_Inr [OF this] show "points ts = []" by simp
next
  assume "points ts = []"
  then show "create_data_points ts md = Inr []" by (simp add: create_data_points_def)
qed

text \<open>The data points of a series cut down to its first point.\<close>

lemma create_data_points_first_point_only:
  assumes "\<forall>p \<in> set (drop 1 (points ts)). has_value p"
  shows "(case create_data_points (first_point_only ts) md of
            Inl e \<Rightarrow> Inl e | Inr dps \<Rightarrow> Inr (take 1 dps)) =
         (case create_data_points ts md of
            Inl e \<Rightarrow> Inl e | Inr dps \<Rightarrow> Inr (take 1 dps))"
proof (cases "points ts")
  case Nil
  then show ?thesis by (simp add: create_data_points_def first_point_only_def)
next
  case (Cons p ps)
  show ?thesis
  proof (cases "point_value p")
    case ValueDistribution
    with Cons show ?thesis
      by (simp add: create_data_points_def first_point_only_def value_attribute_def)
  next
    case (ValueNumber n)
    from assms Cons have "\<forall>q \<in> set ps. has_value q" by simp
    from data_points_loop_total [OF this]
    obtain out where o: "data_points_loop md [\<lparr> ns = md_name md, dp_name = md_name md, dp_value = n \<rparr>] ps = Inr out"
      by blast
    from data_points_loop_Inr [OF o] obtain dps where
      "out = [\<lparr> ns = md_name md, dp_name = md_name md, dp_value = n \<rparr>] @ dps"
      by blast
    with o ValueNumber Cons show ?thesis
      by (simp add: create_data_points_def first_point_only_def value_attribute_def)
  qed
qed

subsection \<open>The loop over the time series\<close>

lemma time_series_loop_step:
  "time_series_loop env self md acc (ts # rest) =
     (case create_data_points ts md of
        Inl e \<Rightarrow> Inl e
      | Inr dps \<Rightarrow>
          (case take 1 dps of
             [] \<Rightarrow> Inl IndexError
           | d # _ \<Rightarrow>
               (case points ts of
                  [] \<Rightarrow> Inl IndexError
                | p # _ \<Rightarrow>
                    (case create_properties ts md of
                       Inl e \<Rightarrow> Inl e
                     | Inr props \<Rightarrow>
                         time_series_loop env self md
                           (acc @ [create_envelope env self d (timestamp p) props]) rest))))"
  by (auto split: list.splits sum.splits)

lemma time_series_loop_Inr:
  "time_series_loop env self md acc tss = Inr out \<Longrightarrow>
     \<exists>new. out = acc @ new \<and> list_all2 (envelope_of_series env self md) tss new"
proof (induction tss arbitrary: acc)
  case Nil
  then show ?case by simp
next
  case (Cons ts rest)
  from Cons.prems obtain d dps p0 ps0 props where
    c: "create_data_points ts md = Inr (d # dps)"
    and p0: "points ts = p0 # ps0"
    and pr: "create_properties ts md = Inr props"
    and r: "time_series_loop env self md
              (acc @ [create_envelope env self d (timestamp p0) props]) rest = Inr out"
    by (auto split: list.splits sum.splits)
  from create_data_points_first [OF c] p0 obtain n where
    v: "point_value p0 = ValueNumber n"
    and d: "d = \<lparr> ns = md_name md, dp_name = md_name md, dp_value = n \<rparr>"
    by auto
  from Cons.IH [OF r] obtain new where
    n: "out = (acc @ [create_envelope env self d (timestamp p0) props]) @ new"
      "list_all2 (envelope_of_series env self md) rest new"
    by blast
  have "envelope_of_series env self md ts (create_envelope env self d (timestamp p0) props)"
    by (simp add: envelope_of_series_def p0 v d pr)
  with n show ?case by simp
qed

lemma time_series_loop_error:
  "time_series_loop env self md acc tss = Inl e \<Longrightarrow> e = IndexError \<or> e = AttributeError"
proof (induction tss arbitrary: acc)
  case Nil
  then show ?case by simp
next
  case (Cons ts rest)
  from Cons.prems show ?case
    by (auto split: list.splits sum.splits
        dest: create_properties_error create_data_points_error Cons.IH)
qed

lemma time_series_loop_empty_points:
  assumes "\<forall>ts \<in> set tss. \<forall>p \<in> set (points ts). has_value p"
    and "\<exists>ts \<in> set tss. points ts = []"
  shows "time_series_loop env self md acc tss = Inl IndexError"
  using assms
proof (induction tss arbitrary: acc)
  case Nil
  then show ?case by simp
next
  case (Cons ts rest)
  from Cons.prems(1) have "\<forall>p \<in> set (points ts). has_value p" by simp
  from create_data_points_total [OF this] obtain dps where
    c: "create_data_points ts md = Inr dps" by blast
  show ?case
  proof (cases "points ts")
    case Nil
    with c create_data_points_Nil [of ts md] have "dps = []"
      by (simp add: create_data_points_def)
    with c show ?thesis by simp
  next
    case (Cons p ps)
    with Cons.prems(2) have rest: "\<exists>ts \<in> set rest. points ts = []" by auto
    from Cons.prems(1) have v: "\<forall>ts \<in> set rest. \<forall>p \<in> set (points ts). has_value p" by simp
    note IH = Cons.IH [OF v rest]
    show ?thesis
    proof (cases "create_properties ts md")
      case (Inl e)
      with create_properties_error [OF Inl] c Cons show ?thesis
        by (simp split: list.splits)
    next
      case (Inr props)
      with c Cons IH show ?thesis
        by (simp split: list.splits)
    qed
  qed
qed

lemma time_series_loop_total:
  "\<forall>ts \<in> set tss. points ts \<noteq> [] \<and> (\<forall>p \<in> set (points ts). has_value p) \<and>
       length (label_keys md) \<le> length (label_values ts) \<Longrightarrow>
     \<exists>out. time_series_loop env self md acc tss = Inr out"
proof (induction tss arbitrary: acc)
  case Nil
  then show ?case by simp
next
  case (Cons ts rest)
  then obtain p ps where p: "points ts = p # ps" by (cases "points ts") auto
  from Cons.prems have "\<forall>p \<in> set (points ts). has_value p" by simp
  from create_data_points_total [OF this] obtain dps where
    c: "create_data_points ts md = Inr dps" by blast
  from c p create_data_points_Nil [of ts md] obtain d dps' where dps: "dps = d # dps'"
    by (cases dps) auto
  from Cons.prems have "length (label_keys md) \<le> length (label_values ts)" by simp
  from create_properties_Inr [OF this] obtain props where pr: "create_properties ts md = Inr props"
    by blast
  from Cons.prems have "\<forall>ts \<in> set rest. points ts \<noteq> [] \<and> (\<forall>p \<in> set (points ts). has_value p) \<and>
       length (label_keys md) \<le> length (label_values ts)"
    by simp
  from Cons.IH [OF this] p c dps pr show ?case
    by simp
qed

lemma time_series_loop_first_point:
  "\<forall>ts \<in> set tss. \<forall>p \<in> set (drop 1 (points ts)). has_value p \<Longrightarrow>
     time_series_loop env self md acc (map first_point_only tss) =
       time_series_loop env self md acc tss"
proof (induction tss arbitrary: acc)
  case Nil
  then show ?case by simp
next
  case (Cons ts rest)
  from Cons.prems have v: "\<forall>p \<in> set (drop 1 (points ts)). has_value p" by simp
  from Cons.prems have "\<forall>ts \<in> set rest. \<forall>p \<in> set (drop 1 (points ts)). has_value p" by simp
  note IH = Cons.IH [OF this]
  have c: "create_properties (first_point_only ts) md = create_properties ts md"
    by (simp add: first_point_only_def create_properties_points)
  note d = create_data_points_first_point_only [OF v, of md]
  have "time_series_loop env self md acc (first_point_only ts # map first_point_only rest) =
        time_series_loop env self md acc (ts # rest)"
    unfolding time_series_loop_step c
    using d
    by (cases "points ts")
      (auto simp: first_point_only_def IH split: sum.splits list.splits)
  then show ?case by simp
qed

lemma metric_to_envelopes_Inr:
  assumes "metric_to_envelopes env self metric = Inr envelopes"
  shows "(md_type (descriptor metric) = CUMULATIVE_DISTRIBUTION \<and> envelopes = []) \<or>
         (md_type (descriptor metric) \<noteq> CUMULATIVE_DISTRIBUTION \<and>
          list_all2 (envelope_of_series env self (descriptor metric)) (time_series metric) envelopes)"
proof (cases "md_type (descriptor metric) = CUMULATIVE_DISTRIBUTION")
  case True
  with assms show ?thesis by (simp add: metric_to_envelopes_def)
next
  case False
  with assms have "time_series_loop env self (descriptor metric) [] (time_series metric) = Inr envelopes"
    by (simp add: metric_to_envelopes_def)
  from time_series_loop_Inr [OF this] False show ?thesis by simp
qed

lemma metric_to_envelopes_error:
  "metric_to_envelopes env self metric = Inl e \<Longrightarrow> e = IndexError \<or> e = AttributeError"
  by (auto simp: metric_to_envelopes_def split: if_splits dest: time_series_loop_error)

lemma envelope_of_series_first_point:
  assumes "envelope_of_series env self md ts e"
  shows "\<exists>p ps n. points ts = p # ps \<and> point_value p = ValueNumber n \<and>
           metrics (baseData (data e)) =
             [\<lparr> ns = md_name md, dp_name = md_name md, dp_value = n \<rparr>] \<and>
           time e = isoformat env (timestamp p)"
proof -
  from assms obtain p ps where p: "points ts = p # ps"
    by (cases "points ts") (simp_all add: envelope_of_series_def)
  from assms p obtain n where n: "point_value p = ValueNumber n"
    by (cases "point_value p") (simp_all add: envelope_of_series_def)
  from assms p n obtain props where pr: "create_properties ts md = Inr props"
    by (cases "create_properties ts md") (simp_all add: envelope_of_series_def)
  from assms p n pr have "e = create_envelope env self
      \<lparr> ns = md_name md, dp_name = md_name md, dp_value = n \<rparr> (timestamp p) props"
    by (simp add: envelope_of_series_def)
  then have "metrics (baseData (data e)) =
      [\<lparr> ns = md_name md, dp_name = md_name md, dp_value = n \<rparr>]"
    and "time e = isoformat env (timestamp p)"
    by (simp_all add: create_envelope_def)
  with p n show ?thesis by blast
qed

subsection \<open>The timestamp of an envelope\<close>

text \<open>
  Claim C9. Every envelope the converter returns for a metric has as its time the
  ISO format of the timestamp of the first point of its time series, the series at the
  envelope's own position. The converter reads no clock: the time of an envelope is a
  function of the metric alone.
\<close>

theorem metric_to_envelopes_time:
  assumes "metric_to_envelopes env self metric = Inr envelopes"
    and "i < length envelopes"
  shows "i < length (time_series metric) \<and>
         points (time_series metric ! i) \<noteq> [] \<and>
         time (envelopes ! i) = isoformat env (timestamp (points (time_series metric ! i) ! 0))"
proof -
  from metric_to_envelopes_Inr [OF assms(1)] assms(2)
  have all: "list_all2 (envelope_of_series env self (descriptor metric)) (time_series metric) envelopes"
    by auto
  then have len: "length (time_series metric) = length envelopes"
    by (rule list_all2_lengthD)
  from all assms(2) len
  have "envelope_of_series env self (descriptor metric) (time_series metric ! i) (envelopes ! i)"
    by (simp add: list_all2_nthD2)
  from envelope_of_series_first_point [OF this] len assms(2) show ?thesis
    by auto
qed

theorem metric_to_envelopes_time_witness:
  "metric_to_envelopes retry_env example_exporter example_metric = Inr [example_envelope False] \<and>
   (0::nat) < length [example_envelope False] \<and>
   time ([example_envelope False] ! 0) = ''2020-01-01T00:00:00'' \<and>
   isoformat retry_env (timestamp (points (time_series example_metric ! 0) ! 0)) = ''2020-01-01T00:00:00''"
proof -
  have m: "metric_to_envelopes retry_env example_exporter example_metric = Inr [example_envelope False]"
    using example_metric_to_envelopes [of retry_env example_exporter]
    by (simp add: retry_env_simps example_exporter_simps example_options_simps)
  have l: "(0::nat) < length [example_envelope False]" by simp
  have t: "isoformat retry_env (timestamp (points (time_series example_metric ! 0) ! 0)) = ''2020-01-01T00:00:00''"
    by (simp add: retry_env_simps example_metric_def example_series_def)
  from metric_to_envelopes_time [OF m l] t
  have "time ([example_envelope False] ! 0) = ''2020-01-01T00:00:00''" by simp
  with m l t show ?thesis by simp
qed

subsection \<open>One envelope for each time series, from its first point\<close>

text \<open>
  Claim C10, as stated, fails: a metric whose type is not the cumulative distribution
  and whose one time series has one point with a distribution-shaped value, as a gauge
  distribution has, gets no envelope. Reading the number of the point raises
  \<^verbatim>\<open>AttributeError\<close>, although no list of points is empty.
\<close>

theorem metric_to_envelopes_first_point_counterexample:
  "md_type (descriptor distribution_metric) \<noteq> CUMULATIVE_DISTRIBUTION \<and>
   length (time_series distribution_metric) = 1 \<and>
   length (points (time_series distribution_metric ! 0)) = 1 \<and>
   metric_to_envelopes retry_env example_exporter distribution_metric = Inl AttributeError"
  by (simp add: distribution_metric_def metric_to_envelopes_def create_data_points_def
      value_attribute_def)

text \<open>
  Claim C10, amended. For a metric whose descriptor type is not the cumulative
  distribution: when \<^verbatim>\<open>metric_to_envelopes\<close> returns, it returns one envelope for
  each time series, in order, whose only data point holds the number of the first point
  of the series and whose time is the ISO format of that point's timestamp. When the
  points after the first of every series hold a number, the result is the same with
  every series cut down to its first point, so these points are ignored. When every
  point holds a number, a time series without points makes the conversion raise
  \<^verbatim>\<open>IndexError\<close>, and the conversion returns when every series has a point and at
  least as many label values as the descriptor has label keys. Points whose value
  object holds no number are left out of these statements.
\<close>

theorem metric_to_envelopes_first_point:
  assumes "md_type (descriptor metric) \<noteq> CUMULATIVE_DISTRIBUTION"
  shows "(\<forall>envelopes. metric_to_envelopes env self metric = Inr envelopes \<longrightarrow>
            length envelopes = length (time_series metric) \<and>
            (\<forall>i < length envelopes. \<exists>p ps n.
               points (time_series metric ! i) = p # ps \<and>
               point_value p = ValueNumber n \<and>
               metrics (baseData (data (envelopes ! i))) =
                 [\<lparr> ns = md_name (descriptor metric), dp_name = md_name (descriptor metric),
                    dp_value = n \<rparr>] \<and>
               time (envelopes ! i) = isoformat env (timestamp p))) \<and>
         ((\<forall>ts \<in> set (time_series metric). \<forall>p \<in> set (drop 1 (points ts)). has_value p) \<longrightarrow>
            metric_to_envelopes env self
                (metric \<lparr> time_series := map first_point_only (time_series metric) \<rparr>) =
              metric_to_envelopes env self metric) \<and>
         ((\<forall>ts \<in> set (time_series metric). \<forall>p \<in> set (points ts). has_value p) \<and>
          (\<exists>ts \<in> set (time_series metric). points ts = []) \<longrightarrow>
            metric_to_envelopes env self metric = Inl IndexError) \<and>
         ((\<forall>ts \<in> set (time_series metric).
              points ts \<noteq> [] \<and> (\<forall>p \<in> set (points ts). has_value p) \<and>
              length (label_keys (descriptor metric)) \<le> length (label_values ts)) \<longrightarrow>
            (\<exists>envelopes. metric_to_envelopes env self metric = Inr envelopes))"
proof (intro conjI allI impI)
  fix envelopes
  assume r: "metric_to_envelopes env self metric = Inr envelopes"
  from metric_to_envelopes_Inr [OF r] assms
  have all: "list_all2 (envelope_of_series env self (descriptor metric)) (time_series metric) envelopes"
    by simp
  then show len: "length envelopes = length (time_series metric)"
    by (simp add: list_all2_lengthD)
  fix i
  assume i: "i < length envelopes"
  with all len
  have "envelope_of_series env self (descriptor metric) (time_series metric ! i) (envelopes ! i)"
    by (simp add: list_all2_nthD2)
  then show "\<exists>p ps n.
               points (time_series metric ! i) = p # ps \<and>
               point_value p = ValueNumber n \<and>
               metrics (baseData (data (envelopes ! i))) =
                 [\<lparr> ns = md_name (descriptor metric), dp_name = md_name (descriptor metric),
                    dp_value = n \<rparr>] \<and>
               time (envelopes ! i) = isoformat env (timestamp p)"
    by (rule envelope_of_series_first_point)
next
  assume "\<forall>ts \<in> set (time_series metric). \<forall>p \<in> set (drop 1 (points ts)). has_value p"
  then show "metric_to_envelopes env self
             (metric \<lparr> time_series := map first_point_only (time_series metric) \<rparr>) =
           metric_to_envelopes env self metric"
    by (simp add: metric_to_envelopes_def time_series_loop_first_point)
next
  assume "(\<forall>ts \<in> set (time_series metric). \<forall>p \<in> set (points ts). has_value p) \<and>
          (\<exists>ts \<in> set (time_series metric). points ts = [])"
  then have "time_series_loop env self (descriptor metric) [] (time_series metric) = Inl IndexError"
    by (intro time_series_loop_empty_points) simp_all
  with assms show "metric_to_envelopes env self metric = Inl IndexError"
    by (simp add: metric_to_envelopes_def)
next
  assume "\<forall>ts \<in> set (time_series metric).
              points ts \<noteq> [] \<and> (\<forall>p \<in> set (points ts). has_value p) \<and>
              length (label_keys (descriptor metric)) \<le> length (label_values ts)"
  from time_series_loop_total [OF this] assms
  show "\<exists>envelopes. metric_to_envelopes env self metric = Inr envelopes"
    by (simp add: metric_to_envelopes_def)
qed

theorem metric_to_envelopes_first_point_witness:
  "md_type (descriptor example_metric) \<noteq> CUMULATIVE_DISTRIBUTION \<and>
   length (points example_series) = 2 \<and>
   metric_to_envelopes retry_env example_exporter example_metric = Inr [example_envelope False] \<and>
   metric_to_envelopes retry_env example_exporter
       (example_metric \<lparr> time_series := map first_point_only (time_series example_metric) \<rparr>) =
     Inr [example_envelope False] \<and>
   md_type (descriptor (example_metric \<lparr> time_series := [example_series \<lparr> points := [] \<rparr>] \<rparr>)) \<noteq>
     CUMULATIVE_DISTRIBUTION \<and>
   metric_to_envelopes retry_env example_exporter
       (example_metric \<lparr> time_series := [example_series \<lparr> points := [] \<rparr>] \<rparr>) = Inl IndexError"
proof -
  have h: "md_type (descriptor example_metric) \<noteq> CUMULATIVE_DISTRIBUTION"
    by (simp add: example_metric_def)
  have h': "md_type (descriptor (example_metric \<lparr> time_series := [example_series \<lparr> points := [] \<rparr>] \<rparr>)) \<noteq>
     CUMULATIVE_DISTRIBUTION"
    by (simp add: example_metric_def)
  have m: "metric_to_envelopes retry_env example_exporter example_metric = Inr [example_envelope False]"
    using example_metric_to_envelopes [of retry_env example_exporter]
    by (simp add: retry_env_simps example_exporter_simps example_options_simps)
  have v: "\<forall>ts \<in> set (time_series example_metric). \<forall>p \<in> set (drop 1 (points ts)). has_value p"
    by (simp add: example_metric_def example_series_def has_value_def)
  note t = metric_to_envelopes_first_point [OF h, of retry_env example_exporter]
  note t' = metric_to_envelopes_first_point [OF h', of retry_env example_exporter]
  from t v m have "metric_to_envelopes retry_env example_exporter
       (example_metric \<lparr> time_series := map first_point_only (time_series example_metric) \<rparr>) =
     Inr [example_envelope False]"
    by simp
  moreover from t' have "metric_to_envelopes retry_env example_exporter
       (example_metric \<lparr> time_series := [example_series \<lparr> points := [] \<rparr>] \<rparr>) = Inl IndexError"
    by simp
  moreover have "length (points example_series) = 2" by (simp add: example_series_def)
  ultimately show ?thesis using h h' m by simp
qed

section \<open>Construction and shutdown\<close>

subsection \<open>Configuration errors\<close>

lemma init_Inr:
  assumes "init validate stats opts = Inr self"
  shows "validate (instrumentation_key opts) = Inr ()" and "0 < max_batch_size opts"
    and "options self = opts" and "exp_max_batch_size self = max_batch_size opts"
    and "is_stats self = stats" and "exporter_thread self = None"
  using assms by (auto simp: init_def split: sum.splits if_splits)

lemma init_valid:
  assumes "valid_configuration validate opts"
  shows "\<exists>self. init validate stats opts = Inr self"
  using assms by (simp add: valid_configuration_def init_def)

lemma extend_envelopes_error:
  "extend_envelopes env self acc ms = Inl e \<Longrightarrow> e = IndexError \<or> e = AttributeError"
proof (induction ms arbitrary: acc)
  case Nil
  then show ?case by simp
next
  case (Cons m ms)
  show ?case
  proof (cases "metric_to_envelopes env self m")
    case (Inl e')
    then have "e' = IndexError \<or> e' = AttributeError"
      by (rule metric_to_envelopes_error)
    with Inl Cons.prems show ?thesis by auto
  next
    case (Inr es)
    with Cons.prems have "extend_envelopes env self (acc @ es) ms = Inl e" by simp
    then show ?thesis by (rule Cons.IH)
  qed
qed

lemma export_metrics_error:
  assumes "export_metrics env self hist ms = Inl e"
  shows "e = IndexError \<or> e = AttributeError \<or> (e = ValueError \<and> exp_max_batch_size self \<le> 0)"
proof (cases "extend_envelopes env self [] ms")
  case (Inl e')
  with assms have "e' = e" by (simp add: export_metrics_def)
  with extend_envelopes_error [OF Inl] show ?thesis by auto
next
  case (Inr envelopes)
  with assms show ?thesis
    by (auto simp: export_metrics_def window_def split: if_splits prod.splits bool.splits)
qed

text \<open>
  Claim C4. With the validator of the instrumentation key as the specification has
  it, the constructor raises the configuration error, a \<^verbatim>\<open>ValueError\<close>, when the key
  is missing, empty or not well-formed, and when the maximum batch size is zero or
  less. For every valid configuration, a key that is present, not empty and
  well-formed with a positive maximum batch size, the constructor returns an exporter
  with these options, and no export of that exporter raises the configuration error,
  whatever the metrics, the processors and the transport.
\<close>

theorem init_configuration_errors:
  "(instrumentation_key opts = None \<or> instrumentation_key opts = Some [] \<or>
      (\<exists>k. instrumentation_key opts = Some k \<and> \<not> well_formed k) \<or>
      max_batch_size opts \<le> 0 \<longrightarrow>
      init (validate_instrumentation_key well_formed) stats opts = Inl ValueError) \<and>
   (valid_configuration (validate_instrumentation_key well_formed) opts \<longleftrightarrow>
      (\<exists>k. instrumentation_key opts = Some k \<and> k \<noteq> [] \<and> well_formed k) \<and>
      0 < max_batch_size opts) \<and>
   (valid_configuration (validate_instrumentation_key well_formed) opts \<longrightarrow>
      (\<exists>self. init (validate_instrumentation_key well_formed) stats opts = Inr self \<and>
         options self = opts \<and>
         (\<forall>env hist metrics'. export_metrics env self hist metrics' \<noteq> Inl ValueError)))"
proof (intro conjI impI)
  assume "instrumentation_key opts = None \<or> instrumentation_key opts = Some [] \<or>
      (\<exists>k. instrumentation_key opts = Some k \<and> \<not> well_formed k) \<or>
      max_batch_size opts \<le> 0"
  then show "init (validate_instrumentation_key well_formed) stats opts = Inl ValueError"
    by (auto simp: init_def validate_instrumentation_key_def split: option.splits sum.splits)
next
  show "valid_configuration (validate_instrumentation_key well_formed) opts \<longleftrightarrow>
      (\<exists>k. instrumentation_key opts = Some k \<and> k \<noteq> [] \<and> well_formed k) \<and>
      0 < max_batch_size opts"
    by (auto simp: valid_configuration_def validate_instrumentation_key_def split: option.splits if_splits)
next
  assume "valid_configuration (validate_instrumentation_key well_formed) opts"
  from init_valid [OF this] obtain self where
    s: "init (validate_instrumentation_key well_formed) stats opts = Inr self"
    by blast
  from init_Inr(2,4) [OF s] have pos: "0 < exp_max_batch_size self" by simp
  have "export_metrics env self hist metrics' \<noteq> Inl ValueError" for env hist metrics'
    using export_metrics_error [of env self hist metrics' ValueError] pos by auto
  with s init_Inr(3) [OF s]
  show "\<exists>self. init (validate_instrumentation_key well_formed) stats opts = Inr self \<and>
         options self = opts \<and>
         (\<forall>env hist metrics'. export_metrics env self hist metrics' \<noteq> Inl ValueError)"
    by blast
qed

theorem init_configuration_errors_witness:
  "init (validate_instrumentation_key uuid_length) False (example_options \<lparr> instrumentation_key := Some [] \<rparr>) =
     Inl ValueError \<and>
   init (validate_instrumentation_key uuid_length) False (example_options \<lparr> max_batch_size := 0 \<rparr>) =
     Inl ValueError \<and>
   valid_configuration (validate_instrumentation_key uuid_length) example_options \<and>
   init (validate_instrumentation_key uuid_length) False example_options = Inr example_exporter \<and>
   export_metrics retry_env example_exporter [] [example_metric] \<noteq> Inl ValueError"
proof -
  have e1: "instrumentation_key (example_options \<lparr> instrumentation_key := Some [] \<rparr>) = Some []"
    by simp
  have e2: "max_batch_size (example_options \<lparr> max_batch_size := 0 \<rparr>) \<le> 0"
    by simp
  have v: "valid_configuration (validate_instrumentation_key uuid_length) example_options"
    by (simp add: valid_configuration_def validate_instrumentation_key_def uuid_length_def
        example_options_def)
  have i: "init (validate_instrumentation_key uuid_length) False example_options = Inr example_exporter"
    by (simp add: init_def validate_instrumentation_key_def uuid_length_def
        example_options_def example_exporter_def example_storage_def)
  note t1 = init_configuration_errors [of "example_options \<lparr> instrumentation_key := Some [] \<rparr>" uuid_length False,
      THEN conjunct1, rule_format]
  note t2 = init_configuration_errors [of "example_options \<lparr> max_batch_size := 0 \<rparr>" uuid_length False,
      THEN conjunct1, rule_format]
  note t3 = init_configuration_errors [of example_options uuid_length False,
      THEN conjunct2, THEN conjunct2, rule_format, OF v]
  from t1 e1 have "init (validate_instrumentation_key uuid_length) False
      (example_options \<lparr> instrumentation_key := Some [] \<rparr>) = Inl ValueError"
    by blast
  moreover from t2 e2 have "init (validate_instrumentation_key uuid_length) False
      (example_options \<lparr> max_batch_size := 0 \<rparr>) = Inl ValueError"
    by blast
  moreover from t3 i have "export_metrics retry_env example_exporter [] [example_metric] \<noteq> Inl ValueError"
    by auto
  ultimately show ?thesis using v i by simp
qed

subsection \<open>Shutdown, twice\<close>

text \<open>
  Claim C2, as stated, fails: \<^verbatim>\<open>shutdown\<close> has no guard. An exporter with a thread
  and a storage closes both in the first call, and the second call in succession
  closes both again.
\<close>

theorem shutdown_twice_counterexample:
  "shutdown running_exporter = (running_exporter, [Thread_close, Storage_close]) \<and>
   shutdown (fst (shutdown running_exporter)) = (running_exporter, [Thread_close, Storage_close])"
  by (simp add: shutdown_def running_exporter_def example_exporter_def)

text \<open>
  Claim C2, amended. \<^verbatim>\<open>shutdown\<close> changes no attribute of the exporter, so the
  state after a second call in succession is the state after the first. The second
  call makes the calls of the first once more: it closes the exporter thread again
  (cancels it, for a statsbeat exporter) when the exporter has a thread, and closes the
  storage again when it has a storage. It makes no call only when the exporter has
  neither.
\<close>

theorem shutdown_twice:
  "fst (shutdown self) = self \<and>
   shutdown (fst (shutdown self)) = shutdown self \<and>
   (Thread_close \<in> set (snd (shutdown self)) \<longleftrightarrow> exporter_thread self \<noteq> None \<and> \<not> is_stats self) \<and>
   (Thread_cancel \<in> set (snd (shutdown self)) \<longleftrightarrow> exporter_thread self \<noteq> None \<and> is_stats self) \<and>
   (Storage_close \<in> set (snd (shutdown self)) \<longleftrightarrow> storage self \<noteq> None) \<and>
   (snd (shutdown self) = [] \<longleftrightarrow> exporter_thread self = None \<and> storage self = None)"
proof -
  have same: "fst (shutdown self) = self"
    by (simp add: shutdown_def)
  then have again: "shutdown (fst (shutdown self)) = shutdown self"
    by simp
  have calls: "snd (shutdown self) =
      (if exporter_thread self \<noteq> None
       then (if \<not> is_stats self then [Thread_close] else [Thread_cancel]) else []) @
      (if storage self \<noteq> None then [Storage_close] else [])"
    by (simp add: shutdown_def)
  show ?thesis
    unfolding again calls using same by auto
qed

theorem shutdown_twice_witness:
  "fst (shutdown statsbeat_exporter) = statsbeat_exporter \<and>
   shutdown (fst (shutdown statsbeat_exporter)) = (statsbeat_exporter, [Storage_close]) \<and>
   storage statsbeat_exporter \<noteq> None"
proof -
  have "shutdown statsbeat_exporter = (statsbeat_exporter, [Storage_close])"
    by (simp add: shutdown_def statsbeat_exporter_def example_exporter_def)
  with shutdown_twice [of statsbeat_exporter] show ?thesis
    by (simp add: statsbeat_exporter_def example_exporter_def)
qed

end
